theory Spec2Isabelle
  imports Main "HOL-Library.Word" "HOL-Library.Sublist"
begin

section \<open>Go values used by the program\<close>

text \<open>
  Go's \<open>int64\<close> is a 64-bit two's complement word: \<open>+\<close> and \<open>-\<close> wrap, \<open>sint\<close> reads the
  signed value. Go's \<open>int\<close> is taken as 64 bits wide (the usual platforms), so it is the
  same type here.
\<close>

type_synonym int64 = "64 word"

section \<open>Package filings: canonical and raw reports\<close>

text \<open>
  \<open>type FinancialReport struct\<close>. The three identity fields carry the prefix \<open>fr_\<close>
  because other structs have fields of the same names.
\<close>

record FinancialReport =
  fr_CIK :: int64
  fr_Year :: int64
  fr_Quarter :: int64
  Revenue :: int64
  OperatingExpense :: int64
  NetIncome :: int64
  CurrentAssets :: int64
  TotalAssets :: int64
  CurrentLiabilities :: int64
  TotalLiabilities :: int64
  OperatingCash :: int64
  CapitalExpenditures :: int64

text \<open>
  \<open>func (fr *FinancialReport) IsValid() error\<close>. The string \<open>missingFields\<close> grows by one
  name per zero field, in the order of the source's nine tests; the result is \<open>None\<close> for
  Go's \<open>nil\<close> and \<open>Some s\<close> for \<open>errors.New(s)\<close>.
\<close>

definition missingFields :: "FinancialReport \<Rightarrow> string" where
  "missingFields fr =
     (if Revenue fr = 0 then ''Revenue,'' else []) @
     (if OperatingExpense fr = 0 then ''OperatingExpense,'' else []) @
     (if NetIncome fr = 0 then ''NetIncome,'' else []) @
     (if TotalAssets fr = 0 then ''TotalAssets,'' else []) @
     (if TotalLiabilities fr = 0 then ''TotalLiabilities,'' else []) @
     (if CurrentAssets fr = 0 then ''CurrentAssets,'' else []) @
     (if CurrentLiabilities fr = 0 then ''CurrentLiabilities,'' else []) @
     (if OperatingCash fr = 0 then ''OperatingCash,'' else []) @
     (if CapitalExpenditures fr = 0 then ''CapitalExpenditures,'' else [])"

definition IsValid :: "FinancialReport \<Rightarrow> string option" where
  "IsValid fr = (if length (missingFields fr) > 0 then Some (missingFields fr) else None)"

text \<open>\<open>type FinancialReportRaw struct\<close>; the Go map is a partial function.\<close>

record FinancialReportRaw =
  frr_CIK :: int64
  frr_Year :: int64
  frr_Quarter :: int64
  RawFields :: "string \<rightharpoonup> int64"

definition GetPreviousQuarter :: "FinancialReportRaw \<Rightarrow> int64 \<times> int64" where
  "GetPreviousQuarter frr =
     (if frr_Quarter frr = 1 then (frr_Year frr - 1, 4)
      else (frr_Year frr, frr_Quarter frr - 1))"


section \<open>The Go library functions the program calls\<close>

text \<open>
  Go strings are byte sequences, here \<open>string\<close> (a list of 8-bit characters). Every
  separator, cutset and pattern the program passes is ASCII, and no byte of a longer
  UTF-8 sequence is ASCII, so the byte-wise definitions below agree with Go's.
\<close>

text \<open>\<open>strings.Contains(s, substr)\<close>: \<open>substr\<close> occurs in \<open>s\<close> as a contiguous block.\<close>

fun strings_Contains :: "string \<Rightarrow> string \<Rightarrow> bool" where
  "strings_Contains [] substr = (substr = [])"
| "strings_Contains (c # cs) substr =
     (prefix substr (c # cs) \<or> strings_Contains cs substr)"

text \<open>
  \<open>strings.Split(s, sep)\<close> for a one-character separator, the only kind the program
  uses: the pieces between the separators, \<open>[s]\<close> when there is none (so the result is
  never empty).
\<close>

fun strings_Split :: "string \<Rightarrow> char \<Rightarrow> string list" where
  "strings_Split [] sep = [[]]"
| "strings_Split (c # cs) sep =
     (if c = sep then [] # strings_Split cs sep
      else (case strings_Split cs sep of
              [] \<Rightarrow> [[c]]
            | p # ps \<Rightarrow> (c # p) # ps))"

text \<open>\<open>strings.Join(elems, sep)\<close>.\<close>

fun strings_Join :: "string list \<Rightarrow> string \<Rightarrow> string" where
  "strings_Join [] sep = []"
| "strings_Join [p] sep = p"
| "strings_Join (p # q # ps) sep = p @ sep @ strings_Join (q # ps) sep"

text \<open>
  \<open>strings.Replace(s, old, new, -1)\<close> for a one-character \<open>old\<close>: every occurrence is
  replaced.
\<close>

definition strings_Replace :: "string \<Rightarrow> char \<Rightarrow> string \<Rightarrow> string" where
  "strings_Replace s old new = concat (map (\<lambda>c. if c = old then new else [c]) s)"

text \<open>
  \<open>strings.Trim(s, cutset)\<close>: all leading and all trailing characters that occur in
  \<open>cutset\<close> are removed. The second argument is a set of characters, not a suffix.
\<close>

definition strings_Trim :: "string \<Rightarrow> string \<Rightarrow> string" where
  "strings_Trim s cutset =
     rev (dropWhile (\<lambda>c. c \<in> set cutset) (rev (dropWhile (\<lambda>c. c \<in> set cutset) s)))"

text \<open>\<open>strconv.Itoa\<close>: the decimal digits, with a minus sign for a negative number.\<close>

definition digit_char :: "nat \<Rightarrow> char" where
  "digit_char d = ''0123456789'' ! d"

fun nat_digits :: "nat \<Rightarrow> string" where
  "nat_digits n =
     (if n < 10 then [digit_char n] else nat_digits (n div 10) @ [digit_char (n mod 10)])"

declare nat_digits.simps [simp del]

definition strconv_Itoa :: "int64 \<Rightarrow> string" where
  "strconv_Itoa i =
     (if sint i < 0 then CHR ''-'' # nat_digits (nat (- sint i)) else nat_digits (nat (sint i)))"

text \<open>
  \<open>strconv.Atoi\<close>: an optional sign and then one or more decimal digits. The result is
  the pair (value, failed). A syntax error gives the value 0; a number outside the range
  of \<open>int\<close> gives the nearest bound, also with an error.
\<close>

definition digit_val :: "char \<Rightarrow> nat option" where
  "digit_val c = map_of (zip ''0123456789'' [0, 1, 2, 3, 4, 5, 6, 7, 8, 9]) c"

fun parse_digits :: "nat \<Rightarrow> string \<Rightarrow> nat option" where
  "parse_digits acc [] = Some acc"
| "parse_digits acc (c # cs) =
     (case digit_val c of
        None \<Rightarrow> None
      | Some d \<Rightarrow> parse_digits (acc * 10 + d) cs)"

definition strconv_Atoi :: "string \<Rightarrow> int64 \<times> bool" where
  "strconv_Atoi s =
     (let neg = (s \<noteq> [] \<and> hd s = CHR ''-'');
          ds = (if s \<noteq> [] \<and> (hd s = CHR ''-'' \<or> hd s = CHR ''+'') then tl s else s)
      in if ds = [] then (0, True)
         else (case parse_digits 0 ds of
                 None \<Rightarrow> (0, True)
               | Some n \<Rightarrow>
                   if neg then (if n > 2 ^ 63 then (word_of_int (- (2 ^ 63)), True)
                                else (word_of_int (- int n), False))
                   else (if n \<ge> 2 ^ 63 then (word_of_int (2 ^ 63 - 1), True)
                         else (word_of_int (int n), False))))"

subsection \<open>Regular expressions\<close>

text \<open>
  The fragment of Go's \<open>regexp\<close> syntax the program's pattern uses: a character class, the
  dot (any character but a newline, Go's default), a literal, alternation, concatenation
  and \<open>+\<close>. \<open>Eps\<close>, \<open>Nul\<close> and \<open>Star\<close> are needed for derivatives only. Go matches
  code point by code point; the subject is read here one \<open>char\<close> per code point, which is
  the same thing for the ASCII names of archive entries.
\<close>

datatype rx =
    Nul
  | Eps
  | Lit char
  | Cls string
  | Dot
  | Alt rx rx
  | Cat rx rx
  | Star rx
  | Plus rx

primrec nullable :: "rx \<Rightarrow> bool" where
  "nullable Nul = False"
| "nullable Eps = True"
| "nullable (Lit c) = False"
| "nullable (Cls cs) = False"
| "nullable Dot = False"
| "nullable (Alt r s) = (nullable r \<or> nullable s)"
| "nullable (Cat r s) = (nullable r \<and> nullable s)"
| "nullable (Star r) = True"
| "nullable (Plus r) = nullable r"

text \<open>\<open>deriv c r\<close> matches \<open>w\<close> exactly when \<open>r\<close> matches \<open>c # w\<close>.\<close>

primrec deriv :: "char \<Rightarrow> rx \<Rightarrow> rx" where
  "deriv c Nul = Nul"
| "deriv c Eps = Nul"
| "deriv c (Lit d) = (if c = d then Eps else Nul)"
| "deriv c (Cls cs) = (if c \<in> set cs then Eps else Nul)"
| "deriv c Dot = (if c = CHR 0x0A then Nul else Eps)"
| "deriv c (Alt r s) = Alt (deriv c r) (deriv c s)"
| "deriv c (Cat r s) =
     (if nullable r then Alt (Cat (deriv c r) s) (deriv c s) else Cat (deriv c r) s)"
| "deriv c (Star r) = Cat (deriv c r) (Star r)"
| "deriv c (Plus r) = Cat (deriv c r) (Star r)"

text \<open>The whole of \<open>w\<close> matches \<open>r\<close>.\<close>

fun rx_full :: "rx \<Rightarrow> string \<Rightarrow> bool" where
  "rx_full r [] = nullable r"
| "rx_full r (c # cs) = rx_full (deriv c r) cs"

text \<open>Some prefix of \<open>w\<close> matches \<open>r\<close>.\<close>

fun rx_prefix :: "rx \<Rightarrow> string \<Rightarrow> bool" where
  "rx_prefix r [] = nullable r"
| "rx_prefix r (c # cs) = (nullable r \<or> rx_prefix (deriv c r) cs)"

text \<open>
  \<open>regexp.MatchString(pattern, s)\<close> for a pattern that compiles: \<open>s\<close> contains a match,
  starting anywhere and ending anywhere (the pattern is not anchored).
\<close>

fun regexp_MatchString :: "rx \<Rightarrow> string \<Rightarrow> bool" where
  "regexp_MatchString r [] = nullable r"
| "regexp_MatchString r (c # cs) = (rx_prefix r (c # cs) \<or> regexp_MatchString r cs)"

text \<open>
  What a pattern means: \<open>lang r\<close> is the set of strings that \<open>r\<close> matches as a whole.
  \<open>lcat\<close> concatenates two languages and \<open>rep\<close> repeats one any number of times.
\<close>

definition lcat :: "string set \<Rightarrow> string set \<Rightarrow> string set" where
  "lcat A B = {u @ v |u v. u \<in> A \<and> v \<in> B}"

inductive_set rep :: "string set \<Rightarrow> string set" for A :: "string set" where
  rep_none: "[] \<in> rep A"
| rep_more: "u \<in> A \<Longrightarrow> v \<in> rep A \<Longrightarrow> u @ v \<in> rep A"

primrec lang :: "rx \<Rightarrow> string set" where
  "lang Nul = {}"
| "lang Eps = {[]}"
| "lang (Lit c) = {[c]}"
| "lang (Cls cs) = (\<lambda>c. [c]) ` set cs"
| "lang Dot = (\<lambda>c. [c]) ` {c. c \<noteq> CHR 0x0A}"
| "lang (Alt r s) = lang r \<union> lang s"
| "lang (Cat r s) = lcat (lang r) (lang s)"
| "lang (Star r) = rep (lang r)"
| "lang (Plus r) = lcat (lang r) (rep (lang r))"

section \<open>Package scraper: the quarterly index and the filing packages\<close>

subsection \<open>Records, collaborators and observable events\<close>

text \<open>
  Modelled from the spec: the declarations of \<open>filings.Company\<close> and
  \<open>filings.ReportFile\<close> are not among the sources. The fields are those the code
  assigns and section 3 of the specification lists; \<open>c_\<close> and \<open>rf_\<close> keep the field
  names of the different structs apart.
\<close>

record Company =
  c_CIK :: int64
  c_Name :: string

record ReportFile =
  rf_CIK :: int64
  rf_Year :: int64
  rf_Quarter :: int64
  rf_FormType :: string
  rf_Filepath :: string
  rf_Parsed :: bool

text \<open>
  The result of \<open>http.Get\<close>: an error, or a response with its status code and body.
\<close>

datatype http_result = GetErr | Resp int string

text \<open>
  An entry of an opened archive (\<open>zip.File\<close>): its name and what \<open>Open\<close> gives, the
  content or \<open>None\<close> for an error.
\<close>

record zip_entry =
  ze_Name :: string
  ze_Open :: "string option"

text \<open>
  The collaborators whose code is not among the sources are parameters: the network, the
  clock, the blob store (\<open>tmpStore.TempStore\<close>) and the archive reader. \<open>'w\<close> is the
  state of the world outside the program (the store's files among it); a call that
  changes it returns the new one.
\<close>

record 'w env =
  http_Get :: "'w \<Rightarrow> string \<Rightarrow> http_result \<times> 'w"
  time_Now_Unix :: "'w \<Rightarrow> int64"
  ts_GetFilePath :: "'w \<Rightarrow> string \<Rightarrow> string \<Rightarrow> string"
  ts_StoreFile :: "'w \<Rightarrow> string \<Rightarrow> string \<Rightarrow> string \<Rightarrow> string \<times> 'w"
  zip_OpenReader :: "'w \<Rightarrow> string \<Rightarrow> zip_entry list option"

text \<open>The messages the scraper logs, by the place in the code that writes them.\<close>

datatype diagnostic =
    ErrLineTooLong
  | ErrParseCIK string
  | InfoRecord string string string string string
  | InfoSkip string string
  | ErrUnexpectedFileType string
  | InfoGettingZip string
  | ErrFailedGet string
  | ErrOpenZip string
  | InfoFoundZipped string
  | ErrNoMatch string

text \<open>
  What the scraper does to its collaborators, in order: every log line, every upsert of a
  company, every GET, every file stored, every archive opened and every report file
  persisted.
\<close>

datatype event =
    Log diagnostic
  | InsertUpdateCompany Company
  | HttpGet string
  | StoreFile string string string
  | OpenZip string
  | InsertUpdateReportFile ReportFile

record 'w scraper_state =
  world :: 'w
  trace :: "event list"

definition emit :: "event \<Rightarrow> 'w scraper_state \<Rightarrow> 'w scraper_state" where
  "emit e st = st\<lparr>trace := trace st @ [e]\<rparr>"

text \<open>A run-time panic of the Go program; it ends the whole process.\<close>

datatype panic = IndexOutOfRange nat nat | NilDereference

subsection \<open>Constants and the key deriver\<close>

definition SEC_EDGAR_BASE_URL :: string where
  "SEC_EDGAR_BASE_URL = ''http://www.sec.gov/Archives/''"

definition XBRL_ZIP_SUFFIX :: string where
  "XBRL_ZIP_SUFFIX = ''-xbrl.zip''"

definition getBucket :: "string \<Rightarrow> string" where
  "getBucket cik = ''CIK_'' @ cik"

definition getKey :: "string \<Rightarrow> int64 \<Rightarrow> int64 \<Rightarrow> string" where
  "getKey formType year quarter =
     strings_Replace
       (''Y'' @ strconv_Itoa year @ ''Q'' @ strconv_Itoa quarter @ ''FT'' @ formType)
       CHR ''/'' ''_''"

subsection \<open>The instance-document extractor\<close>

text \<open>The pattern of \<open>isXbrlFileMatch\<close>, \<open>([a-z]|[0-9])+-[0-9]+.xml\<close>, as Go parses it.\<close>

definition xbrl_pattern :: rx where
  "xbrl_pattern =
     Cat (Plus (Alt (Cls ''abcdefghijklmnopqrstuvwxyz'') (Cls ''0123456789'')))
       (Cat (Lit CHR ''-'')
         (Cat (Plus (Cls ''0123456789''))
           (Cat Dot (Cat (Lit CHR ''x'') (Cat (Lit CHR ''m'') (Lit CHR ''l''))))))"

definition lower_or_digit :: "char set" where
  "lower_or_digit = set ''abcdefghijklmnopqrstuvwxyz'' \<union> set ''0123456789''"

definition isXbrlFileMatch :: "string \<Rightarrow> bool" where
  "isXbrlFileMatch fileName = regexp_MatchString xbrl_pattern fileName"

text \<open>
  The loop over \<open>zipReader.File\<close> in \<open>getXbrlFromZip\<close>; the boolean is \<open>foundOne\<close>. At the
  first matching entry the loop ends. When that entry cannot be opened, \<open>xbrlFile\<close> is
  nil and \<open>defer xbrlFile.Close()\<close> panics.
\<close>

fun scanZip ::
  "'w env \<Rightarrow> string \<Rightarrow> string \<Rightarrow> ReportFile \<Rightarrow> zip_entry list \<Rightarrow> 'w scraper_state \<Rightarrow>
     panic + ('w scraper_state \<times> bool)" where
  "scanZip env bucket fileKey reportFile [] st = Inr (st, False)"
| "scanZip env bucket fileKey reportFile (zippedFile # others) st =
     (if isXbrlFileMatch (ze_Name zippedFile) then
        (let st1 = emit (Log (InfoFoundZipped (ze_Name zippedFile))) st in
         case ze_Open zippedFile of
           None \<Rightarrow> Inl NilDereference
         | Some xbrlFile \<Rightarrow>
             (let (reportPath, w') = ts_StoreFile env (world st1) bucket fileKey xbrlFile;
                  st2 = emit (StoreFile bucket fileKey xbrlFile) (st1\<lparr>world := w'\<rparr>);
                  st3 = emit (InsertUpdateReportFile (reportFile\<lparr>rf_Filepath := reportPath\<rparr>)) st2
              in Inr (st3, True)))
      else scanZip env bucket fileKey reportFile others st)"

definition getXbrlFromZip ::
  "'w env \<Rightarrow> string \<Rightarrow> string \<Rightarrow> string \<Rightarrow> ReportFile \<Rightarrow> 'w scraper_state \<Rightarrow>
     panic + 'w scraper_state" where
  "getXbrlFromZip env zipFileName bucket fileKey reportFile st =
     (let st1 = emit (OpenZip zipFileName) st in
      case zip_OpenReader env (world st1) zipFileName of
        None \<Rightarrow> Inr (emit (Log (ErrOpenZip zipFileName)) st1)
      | Some files \<Rightarrow>
          (case scanZip env bucket fileKey reportFile files st1 of
             Inl p \<Rightarrow> Inl p
           | Inr (st2, foundOne) \<Rightarrow>
               if foundOne = False then Inr (emit (Log (ErrNoMatch zipFileName)) st2)
               else Inr st2))"

subsection \<open>The filing package retriever\<close>

text \<open>
  Lines 138 to 143 of \<open>GetXbrl\<close>: the base name and the package URL derived from the index
  file name. \<open>parts[3]\<close> panics when the name has fewer than four components.
\<close>

definition packageUrl :: "string \<Rightarrow> panic + (string \<times> string)" where
  "packageUrl edgarFilename =
     (let parts = strings_Split edgarFilename CHR ''/'' in
      if length parts \<le> 3 then Inl (IndexOutOfRange 3 (length parts))
      else
        (let baseName = strings_Trim (parts ! 3) ''.txt'';
             preBase = strings_Replace baseName CHR ''-'' [];
             parts' = parts[3 := preBase @ ''/'' @ baseName @ XBRL_ZIP_SUFFIX];
             fullUrl = SEC_EDGAR_BASE_URL @ strings_Join parts' ''/''
         in Inr (baseName, fullUrl)))"

definition GetXbrl ::
  "'w env \<Rightarrow> string \<Rightarrow> string \<Rightarrow> string \<Rightarrow> ReportFile \<Rightarrow> 'w scraper_state \<Rightarrow>
     panic + 'w scraper_state" where
  "GetXbrl env edgarFilename bucket fileKey reportFile st =
     (if \<not> strings_Contains edgarFilename ''.txt'' then
        Inr (emit (Log (ErrUnexpectedFileType edgarFilename)) st)
      else
        (case packageUrl edgarFilename of
           Inl p \<Rightarrow> Inl p
         | Inr (baseName, fullUrl) \<Rightarrow>
             (let st1 = emit (HttpGet fullUrl) (emit (Log (InfoGettingZip fullUrl)) st) in
              case http_Get env (world st1) fullUrl of
                (GetErr, w1) \<Rightarrow> Inr (emit (Log (ErrFailedGet fullUrl)) (st1\<lparr>world := w1\<rparr>))
              | (Resp status body, w1) \<Rightarrow>
                  (let outputFileName =
                         strconv_Itoa (time_Now_Unix env w1) @ baseName @ XBRL_ZIP_SUFFIX;
                       (zipFilePath, w2) = ts_StoreFile env w1 bucket outputFileName body;
                       st2 = emit (StoreFile bucket outputFileName body) (st1\<lparr>world := w2\<rparr>)
                   in if zipFilePath \<noteq> [] then
                        getXbrlFromZip env zipFilePath bucket fileKey reportFile st2
                      else Inr st2))))"

subsection \<open>The quarterly index acquirer\<close>

text \<open>
  Lines 93 to 124 of \<open>ParseIndexFile\<close>: one line of the list. The five reads
  \<open>elements[0]\<close> to \<open>elements[4]\<close> come first; the first index that is out of range
  panics.
\<close>

definition parseRecord ::
  "'w env \<Rightarrow> int64 \<Rightarrow> int64 \<Rightarrow> string \<Rightarrow> 'w scraper_state \<Rightarrow> panic + 'w scraper_state" where
  "parseRecord env year quarter lineStr st =
     (let elements = strings_Split lineStr CHR ''|'' in
      if length elements < 5 then Inl (IndexOutOfRange (length elements) (length elements))
      else
        (let cik = elements ! 0;
             companyName = elements ! 1;
             formType = elements ! 2;
             dateFiled = elements ! 3;
             filename = elements ! 4;
             (cikInt, cikErr) = strconv_Atoi cik;
             st1 = (if \<not> cikErr then
                      emit (InsertUpdateCompany \<lparr>c_CIK = cikInt, c_Name = companyName\<rparr>) st
                    else emit (Log (ErrParseCIK cik)) st);
             st2 = emit (Log (InfoRecord cik companyName formType dateFiled filename)) st1;
             bucket = getBucket cik;
             fileKey = getKey formType year quarter;
             filePath = ts_GetFilePath env (world st2) bucket fileKey
         in if filePath = [] then
              GetXbrl env filename bucket fileKey
                \<lparr>rf_CIK = cikInt, rf_Year = year, rf_Quarter = quarter,
                 rf_FormType = formType, rf_Filepath = [], rf_Parsed = False\<rparr> st2
            else Inr (emit (Log (InfoSkip filename filePath)) st2)))"

text \<open>
  The loop of \<open>ParseIndexFile\<close>. The reader is the finite sequence of what
  \<open>reader.ReadLine()\<close> returns before its first error (the end of the body): each item is
  a line and the flag \<open>isPrefix\<close>. A line longer than the buffer arrives in pieces, all
  but the last with the flag set; the last piece is an item like any other line.
  \<open>ReadLine\<close> returns a nil line only together with the error, which ends the loop
  without further work. \<open>listBegun\<close> is the state of the header/list machine.
\<close>

fun parseLines ::
  "'w env \<Rightarrow> int64 \<Rightarrow> int64 \<Rightarrow> bool \<Rightarrow> (string \<times> bool) list \<Rightarrow> 'w scraper_state \<Rightarrow>
     panic + 'w scraper_state" where
  "parseLines env year quarter listBegun [] st = Inr st"
| "parseLines env year quarter listBegun ((lineStr, isPrefix) # rest) st =
     (if isPrefix then
        parseLines env year quarter listBegun rest (emit (Log ErrLineTooLong) st)
      else if \<not> listBegun \<and> strings_Contains lineStr ''-------'' then
        parseLines env year quarter True rest st
      else if listBegun then
        (case parseRecord env year quarter lineStr st of
           Inl p \<Rightarrow> Inl p
         | Inr st' \<Rightarrow> parseLines env year quarter listBegun rest st')
      else parseLines env year quarter listBegun rest st)"

definition ParseIndexFile ::
  "'w env \<Rightarrow> int64 \<Rightarrow> int64 \<Rightarrow> (string \<times> bool) list \<Rightarrow> 'w scraper_state \<Rightarrow>
     panic + 'w scraper_state" where
  "ParseIndexFile env year quarter fileReader st =
     parseLines env year quarter False fileReader st"


section \<open>The batch consumer (PbStockParser.go)\<close>

text \<open>
  The collaborators of \<open>main\<close> whose code is not among the sources are parameters: the
  report-file persister and the filing parser. \<open>'d\<close> is the state of the database behind
  the persisters. \<open>parser_Parse\<close> stands for the three calls
  \<open>parser.NewFinancialReportParser(...)\<close>, \<open>frp.Parse()\<close> and
  \<open>frp.GetFinancialReport()\<close>: from the file path and the fresh raw report it gives the
  canonical report and the database the raw-report persister has written to.
\<close>

record 'd consumer_env =
  GetNextUnparsedFiles :: "'d \<Rightarrow> int64 \<Rightarrow> ReportFile list"
  persist_InsertUpdateReportFile :: "'d \<Rightarrow> ReportFile \<Rightarrow> 'd"
  parser_Parse :: "'d \<Rightarrow> string \<Rightarrow> FinancialReportRaw \<Rightarrow> FinancialReport \<times> 'd"

text \<open>The calls the consumer makes, in order.\<close>

datatype consumer_call =
    CallParser string FinancialReportRaw
  | CallInsertUpdateReportFile ReportFile

record 'd consumer_state =
  db :: 'd
  calls :: "consumer_call list"
  numValid :: int64
  numInvalid :: int64

text \<open>
  The body of the loop over one batch (lines 56 to 93). \<open>reportFile\<close> is the loop's copy
  of the element, so setting \<open>Parsed\<close> changes the copy that is then persisted.
\<close>

definition consumeFile ::
  "'d consumer_env \<Rightarrow> ReportFile \<Rightarrow> 'd consumer_state \<Rightarrow> 'd consumer_state" where
  "consumeFile env reportFile st =
     (let filePath = rf_Filepath reportFile in
      if \<not> strings_Contains filePath ''10-Q'' \<and>
         \<not> strings_Contains filePath ''10-K'' \<and>
         \<not> strings_Contains filePath ''10-K_A'' \<and>
         \<not> strings_Contains filePath ''10-Q_A''
      then
        (let reportFile' = reportFile\<lparr>rf_Parsed := True\<rparr> in
         st\<lparr>db := persist_InsertUpdateReportFile env (db st) reportFile',
            calls := calls st @ [CallInsertUpdateReportFile reportFile']\<rparr>)
      else
        (let rawReport = \<lparr>frr_CIK = rf_CIK reportFile, frr_Year = rf_Year reportFile,
                          frr_Quarter = rf_Quarter reportFile, RawFields = Map.empty\<rparr>;
             (fr, d1) = parser_Parse env (db st) (rf_Filepath reportFile) rawReport;
             st1 = st\<lparr>db := d1,
                      calls := calls st @ [CallParser (rf_Filepath reportFile) rawReport]\<rparr>;
             frValid = IsValid fr;
             st2 = (if frValid = None then st1\<lparr>numValid := numValid st1 + 1\<rparr>
                    else st1\<lparr>numInvalid := numInvalid st1 + 1\<rparr>);
             reportFile' = reportFile\<lparr>rf_Parsed := True\<rparr>
         in st2\<lparr>db := persist_InsertUpdateReportFile env (db st2) reportFile',
                calls := calls st2 @ [CallInsertUpdateReportFile reportFile']\<rparr>))"

text \<open>The loop over one batch, \<open>for _, reportFile := range *unparsedFiles\<close>.\<close>

fun consumeBatch ::
  "'d consumer_env \<Rightarrow> ReportFile list \<Rightarrow> 'd consumer_state \<Rightarrow> 'd consumer_state" where
  "consumeBatch env [] st = st"
| "consumeBatch env (reportFile # rest) st = consumeBatch env rest (consumeFile env reportFile st)"

text \<open>
  The outer loop of \<open>main\<close>: pages of at most \<open>batchLimit = 20\<close> files until an empty
  page. Nothing in the program bounds the number of pages, so the loop is a partial
  function and \<open>None\<close> stands for a run that never ends. The state carries the totals;
  every batch starts its own two counters at zero and adds them to the totals.
\<close>

record 'd main_state =
  m_db :: 'd
  m_calls :: "consumer_call list"
  totalNumValid :: int64
  totalNumInvalid :: int64

partial_function (option) mainLoop ::
  "'d consumer_env \<Rightarrow> 'd main_state \<Rightarrow> 'd main_state option" where
  "mainLoop env ms =
     (let unparsedFiles = GetNextUnparsedFiles env (m_db ms) 20 in
      if length unparsedFiles = 0 then Some ms
      else
        (let st = consumeBatch env unparsedFiles
                    \<lparr>db = m_db ms, calls = m_calls ms, numValid = 0, numInvalid = 0\<rparr>
         in mainLoop env
              \<lparr>m_db = db st, m_calls = calls st,
               totalNumValid = totalNumValid ms + numValid st,
               totalNumInvalid = totalNumInvalid ms + numInvalid st\<rparr>))"

section \<open>Worlds to run the programs in\<close>

text \<open>
  A small world for running the scraper on concrete input. The store is the list of
  (bucket, name, content) stored so far; a stored file's path is
  \<open>/tmp/<bucket>/<name>\<close>. Every GET is answered by \<open>answer\<close>, the clock stands still,
  and every stored archive opens to \<open>archive\<close>.
\<close>

type_synonym sim_world = "(string \<times> string \<times> string) list"

definition sim_env :: "http_result \<Rightarrow> zip_entry list option \<Rightarrow> sim_world env" where
  "sim_env answer archive =
     \<lparr>http_Get = (\<lambda>w url. (answer, w)),
      time_Now_Unix = (\<lambda>w. 1583020800),
      ts_GetFilePath = (\<lambda>w bucket key.
         if (bucket, key) \<in> set (map (\<lambda>(b, n, c). (b, n)) w)
         then ''/tmp/'' @ bucket @ ''/'' @ key else []),
      ts_StoreFile = (\<lambda>w bucket name content.
         (''/tmp/'' @ bucket @ ''/'' @ name, w @ [(bucket, name, content)])),
      zip_OpenReader = (\<lambda>w path. archive)\<rparr>"

text \<open>
  A world for the consumer: the database is the list of the report files persisted so far
  (latest last), and the parser returns the same canonical report for every file.
\<close>

definition sim_consumer_env :: "FinancialReport \<Rightarrow> ReportFile list consumer_env" where
  "sim_consumer_env fr =
     \<lparr>GetNextUnparsedFiles = (\<lambda>d limit. []),
      persist_InsertUpdateReportFile = (\<lambda>d rf. d @ [rf]),
      parser_Parse = (\<lambda>d path raw. (fr, d))\<rparr>"


section \<open>Facts about the library functions\<close>

lemmas go_lib_defs = strconv_Atoi_def digit_val_def strconv_Itoa_def nat_digits.simps
  digit_char_def strings_Trim_def strings_Replace_def

lemmas scraper_defs = ParseIndexFile_def parseRecord_def GetXbrl_def packageUrl_def
  getXbrlFromZip_def isXbrlFileMatch_def xbrl_pattern_def getBucket_def getKey_def emit_def
  SEC_EDGAR_BASE_URL_def XBRL_ZIP_SUFFIX_def sim_env_def Let_def

lemma strings_Contains_iff_sublist: "strings_Contains s substr \<longleftrightarrow> sublist substr s"
  by (induction s) (auto simp: sublist_Cons_right)

lemma strings_Split_not_empty: "strings_Split s sep \<noteq> []"
  by (induction s) (auto split: list.splits)

lemma strings_Split_no_sep: "sep \<notin> set s \<Longrightarrow> strings_Split s sep = [s]"
  by (induction s) auto

lemma strings_Split_first:
  "sep \<notin> set p \<Longrightarrow> strings_Split (p @ sep # rest) sep = p # strings_Split rest sep"
  by (induction p) auto

lemma strings_Replace_delete: "strings_Replace s old [] = filter (\<lambda>c. c \<noteq> old) s"
  by (induction s) (auto simp: strings_Replace_def)

text \<open>
  \<open>strings.Trim\<close> removes exactly the suffix only when the rest neither starts nor ends
  with a character of the cutset.
\<close>

lemma strings_Trim_suffix:
  assumes "b \<noteq> []" and "hd b \<notin> set cutset" and "last b \<notin> set cutset"
    and "set ending \<subseteq> set cutset"
  shows "strings_Trim (b @ ending) cutset = b"
proof -
  have front: "dropWhile (\<lambda>c. c \<in> set cutset) (b @ ending) = b @ ending"
    using assms(1,2) by (cases b) auto
  have "dropWhile (\<lambda>c. c \<in> set cutset) (rev ending @ rev b) =
          dropWhile (\<lambda>c. c \<in> set cutset) (rev b)"
    using assms(4) by (intro dropWhile_append2) auto
  also have "\<dots> = rev b"
    using assms(1,3) by (cases b rule: rev_cases) auto
  finally show ?thesis
    by (simp add: strings_Trim_def front)
qed

subsection \<open>The matcher decides the language of the pattern\<close>

lemma lcat_mem: "w \<in> lcat A B \<longleftrightarrow> (\<exists>u v. w = u @ v \<and> u \<in> A \<and> v \<in> B)"
  by (auto simp: lcat_def)

lemma lcat_nil: "[] \<in> lcat A B \<longleftrightarrow> [] \<in> A \<and> [] \<in> B"
  by (simp add: lcat_mem)

lemma lcat_cons:
  "c # w \<in> lcat A B \<longleftrightarrow>
     ([] \<in> A \<and> c # w \<in> B) \<or> (\<exists>u v. w = u @ v \<and> c # u \<in> A \<and> v \<in> B)"
  by (auto simp: lcat_mem Cons_eq_append_conv)

lemma nullable_lang: "nullable r \<longleftrightarrow> [] \<in> lang r"
  by (induction r) (auto intro: rep.intros simp: lcat_nil)

lemma rep_cons_split:
  assumes "x \<in> rep A" and "x = c # w"
  shows "\<exists>u v. w = u @ v \<and> c # u \<in> A \<and> v \<in> rep A"
  using assms
proof (induction rule: rep.induct)
  case rep_none
  then show ?case by simp
next
  case (rep_more u v)
  show ?case
  proof (cases u)
    case Nil
    with rep_more show ?thesis by simp
  next
    case (Cons a u')
    with rep_more.prems have "a = c" and "w = u' @ v" by simp_all
    with Cons rep_more.hyps show ?thesis by blast
  qed
qed

lemma rep_cons: "c # w \<in> rep A \<longleftrightarrow> (\<exists>u v. w = u @ v \<and> c # u \<in> A \<and> v \<in> rep A)"
proof
  assume "c # w \<in> rep A"
  then show "\<exists>u v. w = u @ v \<and> c # u \<in> A \<and> v \<in> rep A"
    using rep_cons_split by blast
next
  assume "\<exists>u v. w = u @ v \<and> c # u \<in> A \<and> v \<in> rep A"
  then obtain u v where "w = u @ v" "c # u \<in> A" "v \<in> rep A" by blast
  then show "c # w \<in> rep A"
    using rep_more [of "c # u" A v] by simp
qed

lemma deriv_Cat:
  assumes "\<And>w. w \<in> lang (deriv c r) \<longleftrightarrow> c # w \<in> lang r"
    and "\<And>w. w \<in> lang (deriv c s) \<longleftrightarrow> c # w \<in> lang s"
  shows "w \<in> lang (deriv c (Cat r s)) \<longleftrightarrow> c # w \<in> lang (Cat r s)"
proof (cases "nullable r")
  case True
  then have "w \<in> lang (deriv c (Cat r s)) \<longleftrightarrow>
               (\<exists>u v. w = u @ v \<and> c # u \<in> lang r \<and> v \<in> lang s) \<or> c # w \<in> lang s"
    by (simp add: lcat_mem assms)
  also have "\<dots> \<longleftrightarrow> c # w \<in> lcat (lang r) (lang s)"
    using True by (simp add: lcat_cons nullable_lang disj_commute)
  finally show ?thesis by simp
next
  case False
  then have "w \<in> lang (deriv c (Cat r s)) \<longleftrightarrow>
               (\<exists>u v. w = u @ v \<and> c # u \<in> lang r \<and> v \<in> lang s)"
    by (simp add: lcat_mem assms)
  also have "\<dots> \<longleftrightarrow> c # w \<in> lcat (lang r) (lang s)"
    using False by (simp add: lcat_cons nullable_lang)
  finally show ?thesis by simp
qed

lemma deriv_lang: "w \<in> lang (deriv c r) \<longleftrightarrow> c # w \<in> lang r"
proof (induction r arbitrary: w)
  case (Cat r s)
  then show ?case
    by (rule deriv_Cat)
next
  case (Star r)
  then show ?case
    by (simp add: rep_cons lcat_mem)
next
  case (Plus r)
  have "c # w \<in> lcat (lang r) (rep (lang r)) \<longleftrightarrow>
          (\<exists>u v. w = u @ v \<and> c # u \<in> lang r \<and> v \<in> rep (lang r))"
    by (auto simp: lcat_cons rep_cons)
  with Plus show ?case
    by (simp add: lcat_mem)
qed (auto simp: image_iff)

lemma rx_full_lang: "rx_full r w \<longleftrightarrow> w \<in> lang r"
  by (induction w arbitrary: r) (simp_all add: nullable_lang deriv_lang)

lemma rx_prefix_lang: "rx_prefix r w \<longleftrightarrow> (\<exists>m q. w = m @ q \<and> m \<in> lang r)"
proof (induction w arbitrary: r)
  case Nil
  then show ?case by (simp add: nullable_lang)
next
  case (Cons c w)
  have "(\<exists>m q. c # w = m @ q \<and> m \<in> lang r) \<longleftrightarrow>
          [] \<in> lang r \<or> (\<exists>m q. w = m @ q \<and> c # m \<in> lang r)"
    by (auto simp: Cons_eq_append_conv)
  with Cons show ?case
    by (simp add: nullable_lang deriv_lang)
qed

lemma regexp_MatchString_lang:
  "regexp_MatchString r s \<longleftrightarrow> (\<exists>p m q. s = p @ m @ q \<and> m \<in> lang r)"
proof (induction s)
  case Nil
  then show ?case by (simp add: nullable_lang)
next
  case (Cons c s)
  have "(\<exists>p m q. c # s = p @ m @ q \<and> m \<in> lang r) \<longleftrightarrow>
          (\<exists>m q. c # s = m @ q \<and> m \<in> lang r) \<or> (\<exists>p m q. s = p @ m @ q \<and> m \<in> lang r)"
    (is "?L \<longleftrightarrow> ?A \<or> ?B")
  proof
    assume ?L
    then obtain p m q where eq: "c # s = p @ m @ q" and m: "m \<in> lang r" by blast
    show "?A \<or> ?B"
    proof (cases p)
      case Nil
      with eq m show ?thesis by auto
    next
      case (Cons a p')
      with eq have "s = p' @ m @ q" by simp
      with m show ?thesis by blast
    qed
  next
    assume "?A \<or> ?B"
    then show ?L
    proof
      assume ?A
      then obtain m q where "c # s = [] @ m @ q" "m \<in> lang r" by auto
      then show ?L by blast
    next
      assume ?B
      then obtain p m q where "c # s = (c # p) @ m @ q" "m \<in> lang r" by auto
      then show ?L by blast
    qed
  qed
  with Cons show ?case
    by (simp only: regexp_MatchString.simps rx_prefix_lang)
qed


lemma rep_singletons: "rep ((\<lambda>c. [c]) ` S) = {w. set w \<subseteq> S}"
proof (intro set_eqI iffI)
  fix w
  assume "w \<in> rep ((\<lambda>c. [c]) ` S)"
  then show "w \<in> {w. set w \<subseteq> S}"
    by (induction rule: rep.induct) auto
next
  fix w
  assume "w \<in> {w. set w \<subseteq> S}"
  then show "w \<in> rep ((\<lambda>c. [c]) ` S)"
  proof (induction w)
    case Nil
    show ?case by (rule rep_none)
  next
    case (Cons c w)
    then have "[c] \<in> (\<lambda>c. [c]) ` S" and "w \<in> rep ((\<lambda>c. [c]) ` S)"
      by auto
    then have "[c] @ w \<in> rep ((\<lambda>c. [c]) ` S)"
      by (rule rep_more)
    then show ?case by simp
  qed
qed

lemma plus_singletons:
  "lcat ((\<lambda>c. [c]) ` S) (rep ((\<lambda>c. [c]) ` S)) = {w. w \<noteq> [] \<and> set w \<subseteq> S}"
proof (intro set_eqI iffI)
  fix w
  assume "w \<in> lcat ((\<lambda>c. [c]) ` S) (rep ((\<lambda>c. [c]) ` S))"
  then show "w \<in> {w. w \<noteq> [] \<and> set w \<subseteq> S}"
    by (auto simp: lcat_mem rep_singletons)
next
  fix w
  assume "w \<in> {w. w \<noteq> [] \<and> set w \<subseteq> S}"
  then obtain c w' where "w = [c] @ w'" and "c \<in> S" and "set w' \<subseteq> S"
    by (cases w) auto
  then show "w \<in> lcat ((\<lambda>c. [c]) ` S) (rep ((\<lambda>c. [c]) ` S))"
    unfolding lcat_mem rep_singletons by blast
qed


section \<open>Validity of a canonical report\<close>

text \<open>
  Claim C7. \<open>IsValid\<close> returns no error exactly when all nine canonical metric fields are
  non-zero, and a report in which only \<open>CapitalExpenditures\<close> is zero yields the error
  whose text is exactly \<open>CapitalExpenditures,\<close>.
\<close>

theorem IsValid_iff_all_nonzero:
  "(IsValid fr = None \<longleftrightarrow>
      Revenue fr \<noteq> 0 \<and> OperatingExpense fr \<noteq> 0 \<and> NetIncome fr \<noteq> 0 \<and>
      CurrentAssets fr \<noteq> 0 \<and> TotalAssets fr \<noteq> 0 \<and> CurrentLiabilities fr \<noteq> 0 \<and>
      TotalLiabilities fr \<noteq> 0 \<and> OperatingCash fr \<noteq> 0 \<and> CapitalExpenditures fr \<noteq> 0) \<and>
   (Revenue fr \<noteq> 0 \<and> OperatingExpense fr \<noteq> 0 \<and> NetIncome fr \<noteq> 0 \<and>
      CurrentAssets fr \<noteq> 0 \<and> TotalAssets fr \<noteq> 0 \<and> CurrentLiabilities fr \<noteq> 0 \<and>
      TotalLiabilities fr \<noteq> 0 \<and> OperatingCash fr \<noteq> 0 \<and> CapitalExpenditures fr = 0
    \<longrightarrow> IsValid fr = Some ''CapitalExpenditures,'')"
proof (intro conjI impI)
  show "IsValid fr = None \<longleftrightarrow>
      Revenue fr \<noteq> 0 \<and> OperatingExpense fr \<noteq> 0 \<and> NetIncome fr \<noteq> 0 \<and>
      CurrentAssets fr \<noteq> 0 \<and> TotalAssets fr \<noteq> 0 \<and> CurrentLiabilities fr \<noteq> 0 \<and>
      TotalLiabilities fr \<noteq> 0 \<and> OperatingCash fr \<noteq> 0 \<and> CapitalExpenditures fr \<noteq> 0"
    unfolding IsValid_def missingFields_def by (simp split: if_splits)
next
  assume only_capex:
    "Revenue fr \<noteq> 0 \<and> OperatingExpense fr \<noteq> 0 \<and> NetIncome fr \<noteq> 0 \<and>
      CurrentAssets fr \<noteq> 0 \<and> TotalAssets fr \<noteq> 0 \<and> CurrentLiabilities fr \<noteq> 0 \<and>
      TotalLiabilities fr \<noteq> 0 \<and> OperatingCash fr \<noteq> 0 \<and> CapitalExpenditures fr = 0"
  then show "IsValid fr = Some ''CapitalExpenditures,''"
    unfolding IsValid_def missingFields_def by simp
qed

theorem IsValid_iff_all_nonzero_witness:
  "IsValid \<lparr>fr_CIK = 12345, fr_Year = 2020, fr_Quarter = 1, Revenue = 10,
      OperatingExpense = 7, NetIncome = 3, CurrentAssets = 5, TotalAssets = 9,
      CurrentLiabilities = 2, TotalLiabilities = 4, OperatingCash = 6,
      CapitalExpenditures = 0\<rparr> = Some ''CapitalExpenditures,''
   \<and> IsValid \<lparr>fr_CIK = 12345, fr_Year = 2020, fr_Quarter = 1, Revenue = 10,
      OperatingExpense = 7, NetIncome = 3, CurrentAssets = 5, TotalAssets = 9,
      CurrentLiabilities = 2, TotalLiabilities = 4, OperatingCash = 6,
      CapitalExpenditures = 1\<rparr> = None"
  using IsValid_iff_all_nonzero [of "\<lparr>fr_CIK = 12345, fr_Year = 2020, fr_Quarter = 1,
      Revenue = 10, OperatingExpense = 7, NetIncome = 3, CurrentAssets = 5, TotalAssets = 9,
      CurrentLiabilities = 2, TotalLiabilities = 4, OperatingCash = 6,
      CapitalExpenditures = 0\<rparr>"]
    IsValid_iff_all_nonzero [of "\<lparr>fr_CIK = 12345, fr_Year = 2020, fr_Quarter = 1,
      Revenue = 10, OperatingExpense = 7, NetIncome = 3, CurrentAssets = 5, TotalAssets = 9,
      CurrentLiabilities = 2, TotalLiabilities = 4, OperatingCash = 6,
      CapitalExpenditures = 1\<rparr>"]
  by simp

section \<open>The quarter before a raw report's\<close>

lemma sint_minus_one:
  fixes w :: int64
  assumes "- (2 ^ 63) < sint w"
  shows "sint (w - 1) = sint w - 1"
proof -
  have upper: "sint w < 2 ^ 63"
    using sint_lt [of w] by simp
  have "sint (w - 1) = signed_take_bit 63 (sint w - 1)"
    by (simp add: sint_word_ariths)
  also have "\<dots> = sint w - 1"
    using assms upper by (intro signed_take_bit_int_eq_self) auto
  finally show ?thesis .
qed

text \<open>
  Claim C9. For every year and every quarter in 1..4, \<open>GetPreviousQuarter\<close> returns
  (Year - 1, 4) when the quarter is 1 and (Year, Quarter - 1) otherwise, and the returned
  quarter is again in 1..4. The subtraction is Go's on \<open>int64\<close>: read as signed numbers,
  the returned quarter is Quarter - 1, and the returned year is Year - 1 for every year
  above the least \<open>int64\<close>.
\<close>

theorem GetPreviousQuarter_valid:
  assumes "1 \<le> sint (frr_Quarter frr)" and "sint (frr_Quarter frr) \<le> 4"
  shows "GetPreviousQuarter frr =
           (if frr_Quarter frr = 1 then (frr_Year frr - 1, 4)
            else (frr_Year frr, frr_Quarter frr - 1)) \<and>
         1 \<le> sint (snd (GetPreviousQuarter frr)) \<and>
         sint (snd (GetPreviousQuarter frr)) \<le> 4 \<and>
         (frr_Quarter frr \<noteq> 1 \<longrightarrow>
            sint (snd (GetPreviousQuarter frr)) = sint (frr_Quarter frr) - 1) \<and>
         (frr_Quarter frr = 1 \<longrightarrow> - (2 ^ 63) < sint (frr_Year frr) \<longrightarrow>
            sint (fst (GetPreviousQuarter frr)) = sint (frr_Year frr) - 1)"
proof (cases "frr_Quarter frr = 1")
  case True
  then show ?thesis
    by (simp add: GetPreviousQuarter_def sint_minus_one)
next
  case False
  have "frr_Quarter frr = word_of_int (sint (frr_Quarter frr))"
    by simp
  with False have "sint (frr_Quarter frr) \<noteq> 1"
    by (metis of_int_1)
  moreover have "sint (frr_Quarter frr - 1) = sint (frr_Quarter frr) - 1"
    using assms by (intro sint_minus_one) auto
  ultimately show ?thesis
    using assms False by (simp add: GetPreviousQuarter_def)
qed

theorem GetPreviousQuarter_valid_witness:
  "GetPreviousQuarter \<lparr>frr_CIK = 12345, frr_Year = 2020, frr_Quarter = 1,
      RawFields = Map.empty\<rparr> = (2019, 4) \<and>
   GetPreviousQuarter \<lparr>frr_CIK = 12345, frr_Year = 2020, frr_Quarter = 3,
      RawFields = Map.empty\<rparr> = (2020, 2)"
  using GetPreviousQuarter_valid [of "\<lparr>frr_CIK = 12345, frr_Year = 2020, frr_Quarter = 1,
      RawFields = Map.empty\<rparr>"]
    GetPreviousQuarter_valid [of "\<lparr>frr_CIK = 12345, frr_Year = 2020, frr_Quarter = 3,
      RawFields = Map.empty\<rparr>"]
  by simp

section \<open>The index parser, line by line\<close>

text \<open>
  What \<open>ParseIndexFile\<close> does with one line of the list that has at least five fields,
  whatever \<open>strconv.Atoi\<close> says about the first: the error only decides between the
  upsert of the company and a log line. The look-up in the store and the download follow
  in both cases, with \<open>cikInt\<close> as \<open>Atoi\<close> left it.
\<close>

lemma parseRecord_five_fields:
  assumes "strings_Split lineStr CHR ''|'' =
             cik # companyName # formType # dateFiled # filename # extra"
    and "strconv_Atoi cik = (cikInt, cikErr)"
    and "st2 = st\<lparr>trace := trace st @
                 [if cikErr then Log (ErrParseCIK cik)
                  else InsertUpdateCompany \<lparr>c_CIK = cikInt, c_Name = companyName\<rparr>,
                  Log (InfoRecord cik companyName formType dateFiled filename)]\<rparr>"
    and "filePath = ts_GetFilePath env (world st) (getBucket cik) (getKey formType year quarter)"
  shows "parseRecord env year quarter lineStr st =
           (if filePath = [] then
              GetXbrl env filename (getBucket cik) (getKey formType year quarter)
                \<lparr>rf_CIK = cikInt, rf_Year = year, rf_Quarter = quarter,
                 rf_FormType = formType, rf_Filepath = [], rf_Parsed = False\<rparr> st2
            else Inr (st2\<lparr>trace := trace st2 @ [Log (InfoSkip filename filePath)]\<rparr>))"
  using assms by (simp add: parseRecord_def emit_def Let_def)

text \<open>
  Claim C1 says that a record whose CIK does not parse is skipped entirely: no company, no
  report file, no package fetch. The code only leaves out the upsert of the company. On
  the index below (one record, CIK \<open>12a45\<close>, nothing cached) it logs the parse error,
  then fetches the package, stores it, extracts the instance document and persists a
  report file whose CIK is 0.
\<close>

theorem unparsable_CIK_is_not_skipped:
  "ParseIndexFile
     (sim_env (Resp 200 ''PK'')
        (Some [\<lparr>ze_Name = ''acme-20191231.xsd'', ze_Open = Some ''<schema/>''\<rparr>,
               \<lparr>ze_Name = ''acme-20191231.xml'', ze_Open = Some ''<xbrl/>''\<rparr>]))
     2020 1
     [(''CIK|Company Name|Form Type|Date Filed|Filename'', False),
      (''--------------------------------------------'', False),
      (''12a45|Acme Corp|10-K|2020-03-01|edgar/data/12345/0000012345-20-000012.txt'', False)]
     \<lparr>world = [], trace = []\<rparr> =
   Inr \<lparr>world =
          [(''CIK_12a45'', ''15830208000000012345-20-000012-xbrl.zip'', ''PK''),
           (''CIK_12a45'', ''Y2020Q1FT10-K'', ''<xbrl/>'')],
        trace =
          [Log (ErrParseCIK ''12a45''),
           Log (InfoRecord ''12a45'' ''Acme Corp'' ''10-K'' ''2020-03-01''
                  ''edgar/data/12345/0000012345-20-000012.txt''),
           Log (InfoGettingZip
                  ''http://www.sec.gov/Archives/edgar/data/12345/000001234520000012/0000012345-20-000012-xbrl.zip''),
           HttpGet
             ''http://www.sec.gov/Archives/edgar/data/12345/000001234520000012/0000012345-20-000012-xbrl.zip'',
           StoreFile ''CIK_12a45'' ''15830208000000012345-20-000012-xbrl.zip'' ''PK'',
           OpenZip ''/tmp/CIK_12a45/15830208000000012345-20-000012-xbrl.zip'',
           Log (InfoFoundZipped ''acme-20191231.xml''),
           StoreFile ''CIK_12a45'' ''Y2020Q1FT10-K'' ''<xbrl/>'',
           InsertUpdateReportFile
             \<lparr>rf_CIK = 0, rf_Year = 2020, rf_Quarter = 1, rf_FormType = ''10-K'',
              rf_Filepath = ''/tmp/CIK_12a45/Y2020Q1FT10-K'', rf_Parsed = False\<rparr>]\<rparr>"
  by (simp add: scraper_defs go_lib_defs)

text \<open>
  A line of the list with fewer than five fields: the read of the first missing element
  panics, before anything is logged, and the panic ends the loop over the lines.
\<close>

lemma parseRecord_short_line:
  assumes "length (strings_Split lineStr CHR ''|'') < 5"
  shows "parseRecord env year quarter lineStr st =
           Inl (IndexOutOfRange (length (strings_Split lineStr CHR ''|''))
                  (length (strings_Split lineStr CHR ''|'')))"
  using assms by (simp add: parseRecord_def Let_def)

lemma parseLines_short_line:
  assumes "length (strings_Split lineStr CHR ''|'') < 5"
  shows "parseLines env year quarter True ((lineStr, False) # rest) st =
           Inl (IndexOutOfRange (length (strings_Split lineStr CHR ''|''))
                  (length (strings_Split lineStr CHR ''|'')))"
  using assms by (simp add: parseRecord_short_line)

text \<open>
  Claim C2 says that a line of the list with fewer than five fields is logged and skipped
  and never aborts the run. In the code the field reads are unchecked: on the index below
  the three-field line makes \<open>elements[3]\<close> panic, and the well-formed record after it
  is never processed.
\<close>

theorem short_line_aborts_the_run:
  "ParseIndexFile
     (sim_env (Resp 200 ''PK'')
        (Some [\<lparr>ze_Name = ''acme-20191231.xml'', ze_Open = Some ''<xbrl/>''\<rparr>]))
     2020 1
     [(''--------------------------------------------'', False),
      (''0000012345|Acme Corp|10-K'', False),
      (''0000012345|Acme Corp|10-K|2020-03-01|edgar/data/12345/0000012345-20-000012.txt'', False)]
     \<lparr>world = [], trace = []\<rparr> =
   Inl (IndexOutOfRange 3 3)"
  by (simp add: ParseIndexFile_def parseRecord_def Let_def)

section \<open>The package fetch\<close>

text \<open>A GET that fails: the error is logged and nothing else happens for the record.\<close>

lemma GetXbrl_get_error:
  assumes "strings_Contains edgarFilename ''.txt''"
    and "packageUrl edgarFilename = Inr (baseName, fullUrl)"
    and "http_Get env (world st) fullUrl = (GetErr, w1)"
  shows "GetXbrl env edgarFilename bucket fileKey reportFile st =
           Inr (st\<lparr>world := w1,
                   trace := trace st @
                     [Log (InfoGettingZip fullUrl), HttpGet fullUrl,
                      Log (ErrFailedGet fullUrl)]\<rparr>)"
  using assms by (simp add: GetXbrl_def emit_def Let_def)

text \<open>
  A GET that is answered: the status code occurs nowhere on the right-hand side. Whatever
  it is, the body is stored, and when the store returns a path the archive is opened.
\<close>

lemma GetXbrl_any_status:
  assumes "strings_Contains edgarFilename ''.txt''"
    and "packageUrl edgarFilename = Inr (baseName, fullUrl)"
    and "http_Get env (world st) fullUrl = (Resp status body, w1)"
    and "outputFileName = strconv_Itoa (time_Now_Unix env w1) @ baseName @ XBRL_ZIP_SUFFIX"
    and "ts_StoreFile env w1 bucket outputFileName body = (zipFilePath, w2)"
    and "st2 = st\<lparr>world := w2,
                  trace := trace st @
                    [Log (InfoGettingZip fullUrl), HttpGet fullUrl,
                     StoreFile bucket outputFileName body]\<rparr>"
  shows "GetXbrl env edgarFilename bucket fileKey reportFile st =
           (if zipFilePath \<noteq> [] then
              getXbrlFromZip env zipFilePath bucket fileKey reportFile st2
            else Inr st2)"
  using assms by (simp add: GetXbrl_def emit_def Let_def)

text \<open>
  Claim C3 says that a non-200 status on the package fetch aborts the record with nothing
  stored and no extraction attempted, as a GET error does. \<open>GetXbrl\<close> never reads the
  status: below, the body of a 404 answer is stored in the blob store under the archive's
  name and the stored file is opened as an archive.
\<close>

theorem non_200_package_is_stored:
  "GetXbrl (sim_env (Resp 404 ''<html>Not Found</html>'') None)
     ''edgar/data/12345/0000012345-20-000012.txt'' ''CIK_0000012345'' ''Y2020Q1FT10-K''
     \<lparr>rf_CIK = 12345, rf_Year = 2020, rf_Quarter = 1, rf_FormType = ''10-K'',
      rf_Filepath = [], rf_Parsed = False\<rparr>
     \<lparr>world = [], trace = []\<rparr> =
   Inr \<lparr>world =
          [(''CIK_0000012345'', ''15830208000000012345-20-000012-xbrl.zip'',
            ''<html>Not Found</html>'')],
        trace =
          [Log (InfoGettingZip
                  ''http://www.sec.gov/Archives/edgar/data/12345/000001234520000012/0000012345-20-000012-xbrl.zip''),
           HttpGet
             ''http://www.sec.gov/Archives/edgar/data/12345/000001234520000012/0000012345-20-000012-xbrl.zip'',
           StoreFile ''CIK_0000012345'' ''15830208000000012345-20-000012-xbrl.zip''
             ''<html>Not Found</html>'',
           OpenZip ''/tmp/CIK_0000012345/15830208000000012345-20-000012-xbrl.zip'',
           Log (ErrOpenZip
                  ''/tmp/CIK_0000012345/15830208000000012345-20-000012-xbrl.zip'')]\<rparr>"
  by (simp add: scraper_defs go_lib_defs)

section \<open>The package URL\<close>

text \<open>
  On the names the index really lists (three directory components and a base name that
  neither starts nor ends with one of the characters \<open>.\<close>, \<open>t\<close>, \<open>x\<close>, as an accession
  number does) the URL is the one the specification describes.
\<close>

lemma packageUrl_accession:
  assumes "CHR ''/'' \<notin> set a" and "CHR ''/'' \<notin> set b" and "CHR ''/'' \<notin> set c"
    and "CHR ''/'' \<notin> set base" and "base \<noteq> []"
    and "hd base \<notin> set ''.txt''" and "last base \<notin> set ''.txt''"
  shows "packageUrl (a @ ''/'' @ b @ ''/'' @ c @ ''/'' @ base @ ''.txt'') =
           Inr (base,
                SEC_EDGAR_BASE_URL @ a @ ''/'' @ b @ ''/'' @ c @ ''/'' @
                  filter (\<lambda>x. x \<noteq> CHR ''-'') base @ ''/'' @ base @ XBRL_ZIP_SUFFIX)"
proof -
  have "CHR ''/'' \<notin> set (base @ ''.txt'')"
    using assms(4) by simp
  then have parts:
    "strings_Split (a @ CHR ''/'' # b @ CHR ''/'' # c @ CHR ''/'' # base @ ''.txt'') CHR ''/'' =
       [a, b, c, base @ ''.txt'']"
    using assms(1-3) by (simp add: strings_Split_first strings_Split_no_sep)
  have trim: "strings_Trim (base @ ''.txt'') ''.txt'' = base"
    using assms(5-7) by (intro strings_Trim_suffix) auto
  show ?thesis
    using parts trim by (simp add: packageUrl_def Let_def strings_Replace_delete)
qed

text \<open>
  Claim C4 says that the base name is the fourth path component with exactly its \<open>.txt\<close>
  suffix stripped. The code calls \<open>strings.Trim(parts[3], ".txt")\<close>, which strips every
  leading and trailing \<open>.\<close>, \<open>t\<close> and \<open>x\<close>: for the component
  \<open>xbrl-report-2013.txt\<close> the base name loses its first letter, and the URL with it.
\<close>

theorem packageUrl_trims_a_character_set:
  "packageUrl ''edgar/data/12345/xbrl-report-2013.txt'' =
     Inr (''brl-report-2013'',
          ''http://www.sec.gov/Archives/edgar/data/12345/brlreport2013/brl-report-2013-xbrl.zip'')"
  by (simp add: scraper_defs go_lib_defs)

section \<open>The scan of an archive\<close>

lemma scanZip_no_match:
  assumes "\<And>e. e \<in> set files \<Longrightarrow> \<not> isXbrlFileMatch (ze_Name e)"
  shows "scanZip env bucket fileKey reportFile files st = Inr (st, False)"
  using assms by (induction files) auto

lemma scanZip_first_match:
  assumes "\<And>e. e \<in> set before \<Longrightarrow> \<not> isXbrlFileMatch (ze_Name e)"
    and "isXbrlFileMatch (ze_Name hit)"
  shows "scanZip env bucket fileKey reportFile (before @ hit # after) st =
           scanZip env bucket fileKey reportFile [hit] st"
  using assms by (induction before) auto

text \<open>
  The entries are tried in archive order, the first one \<open>isXbrlFileMatch\<close> accepts is
  stored and persisted, and nothing behind it is looked at.
\<close>

lemma getXbrlFromZip_first_match:
  assumes "zip_OpenReader env (world st) zipFileName = Some (before @ hit # after)"
    and "\<And>e. e \<in> set before \<Longrightarrow> \<not> isXbrlFileMatch (ze_Name e)"
    and "isXbrlFileMatch (ze_Name hit)"
    and "ze_Open hit = Some xbrlFile"
    and "ts_StoreFile env (world st) bucket fileKey xbrlFile = (reportPath, w')"
  shows "getXbrlFromZip env zipFileName bucket fileKey reportFile st =
           Inr (st\<lparr>world := w',
                   trace := trace st @
                     [OpenZip zipFileName, Log (InfoFoundZipped (ze_Name hit)),
                      StoreFile bucket fileKey xbrlFile,
                      InsertUpdateReportFile (reportFile\<lparr>rf_Filepath := reportPath\<rparr>)]\<rparr>)"
proof -
  have "scanZip env bucket fileKey reportFile (before @ hit # after)
          (emit (OpenZip zipFileName) st) =
        scanZip env bucket fileKey reportFile [hit] (emit (OpenZip zipFileName) st)"
    using assms(2,3) by (rule scanZip_first_match)
  then show ?thesis
    using assms(1,3,4,5) by (simp add: getXbrlFromZip_def emit_def Let_def)
qed

text \<open>When \<open>isXbrlFileMatch\<close> accepts no entry, the error is logged and no report file is produced.\<close>

lemma getXbrlFromZip_no_match:
  assumes "zip_OpenReader env (world st) zipFileName = Some files"
    and "\<And>e. e \<in> set files \<Longrightarrow> \<not> isXbrlFileMatch (ze_Name e)"
  shows "getXbrlFromZip env zipFileName bucket fileKey reportFile st =
           Inr (st\<lparr>trace := trace st @ [OpenZip zipFileName, Log (ErrNoMatch zipFileName)]\<rparr>)"
proof -
  have "scanZip env bucket fileKey reportFile files (emit (OpenZip zipFileName) st) =
          Inr (emit (OpenZip zipFileName) st, False)"
    using assms(2) by (rule scanZip_no_match)
  then show ?thesis
    using assms(1) by (simp add: getXbrlFromZip_def emit_def Let_def)
qed

text \<open>
  What \<open>isXbrlFileMatch\<close> accepts: a name that contains, anywhere, one or more
  lowercase letters or digits, a dash, one or more digits, any one character but a newline,
  and \<open>xml\<close>.
\<close>

lemma lang_xbrl_pattern:
  "m \<in> lang xbrl_pattern \<longleftrightarrow>
     (\<exists>a d x. m = a @ ''-'' @ d @ x # ''xml'' \<and>
        a \<noteq> [] \<and> set a \<subseteq> lower_or_digit \<and>
        d \<noteq> [] \<and> set d \<subseteq> set ''0123456789'' \<and> x \<noteq> CHR 0x0A)"
proof -
  have head: "lang (Plus (Alt (Cls ''abcdefghijklmnopqrstuvwxyz'') (Cls ''0123456789''))) =
                {w. w \<noteq> [] \<and> set w \<subseteq> lower_or_digit}"
    unfolding lower_or_digit_def lang.simps image_Un [symmetric] by (rule plus_singletons)
  have digits: "lang (Plus (Cls ''0123456789'')) = {w. w \<noteq> [] \<and> set w \<subseteq> set ''0123456789''}"
    unfolding lang.simps by (rule plus_singletons)
  have tail: "t \<in> lang (Cat Dot (Cat (Lit CHR ''x'') (Cat (Lit CHR ''m'') (Lit CHR ''l'')))) \<longleftrightarrow>
                (\<exists>x. t = x # ''xml'' \<and> x \<noteq> CHR 0x0A)" for t
    by (auto simp: lcat_mem)
  have whole: "lang xbrl_pattern =
      lcat {w. w \<noteq> [] \<and> set w \<subseteq> lower_or_digit}
        (lcat {''-''}
          (lcat {w. w \<noteq> [] \<and> set w \<subseteq> set ''0123456789''}
            (lang (Cat Dot (Cat (Lit CHR ''x'') (Cat (Lit CHR ''m'') (Lit CHR ''l'')))))))"
    unfolding xbrl_pattern_def
    by (simp only: lang.simps(7) head digits lang.simps(3))
  show ?thesis
  proof
    assume "m \<in> lang xbrl_pattern"
    then obtain a d t where "m = a @ ''-'' @ d @ t" and "a \<noteq> []"
      and "set a \<subseteq> lower_or_digit" and "d \<noteq> []" and "set d \<subseteq> set ''0123456789''"
      and "t \<in> lang (Cat Dot (Cat (Lit CHR ''x'') (Cat (Lit CHR ''m'') (Lit CHR ''l''))))"
      unfolding whole lcat_mem by blast
    then show "\<exists>a d x. m = a @ ''-'' @ d @ x # ''xml'' \<and>
        a \<noteq> [] \<and> set a \<subseteq> lower_or_digit \<and>
        d \<noteq> [] \<and> set d \<subseteq> set ''0123456789'' \<and> x \<noteq> CHR 0x0A"
      unfolding tail by blast
  next
    assume "\<exists>a d x. m = a @ ''-'' @ d @ x # ''xml'' \<and>
        a \<noteq> [] \<and> set a \<subseteq> lower_or_digit \<and>
        d \<noteq> [] \<and> set d \<subseteq> set ''0123456789'' \<and> x \<noteq> CHR 0x0A"
    then obtain a d x where m: "m = a @ ''-'' @ d @ x # ''xml''" and a: "a \<noteq> []"
      "set a \<subseteq> lower_or_digit" and d: "d \<noteq> []" "set d \<subseteq> set ''0123456789''"
      and x: "x \<noteq> CHR 0x0A"
      by blast
    have "x # ''xml'' \<in> lang (Cat Dot (Cat (Lit CHR ''x'') (Cat (Lit CHR ''m'') (Lit CHR ''l''))))"
      unfolding tail using x by blast
    with d have "d @ x # ''xml'' \<in>
        lcat {w. w \<noteq> [] \<and> set w \<subseteq> set ''0123456789''}
          (lang (Cat Dot (Cat (Lit CHR ''x'') (Cat (Lit CHR ''m'') (Lit CHR ''l'')))))"
      unfolding lcat_mem by blast
    then have "''-'' @ d @ x # ''xml'' \<in>
        lcat {''-''} (lcat {w. w \<noteq> [] \<and> set w \<subseteq> set ''0123456789''}
          (lang (Cat Dot (Cat (Lit CHR ''x'') (Cat (Lit CHR ''m'') (Lit CHR ''l''))))))"
      unfolding lcat_mem [of _ "{''-''}"] by blast
    with a have "a @ ''-'' @ d @ x # ''xml'' \<in> lang xbrl_pattern"
      unfolding whole lcat_mem [of _ "{w. w \<noteq> [] \<and> set w \<subseteq> lower_or_digit}"] by blast
    with m show "m \<in> lang xbrl_pattern"
      by simp
  qed
qed

lemma isXbrlFileMatch_iff:
  "isXbrlFileMatch fileName \<longleftrightarrow>
     (\<exists>p a d x q. fileName = p @ a @ ''-'' @ d @ x # ''xml'' @ q \<and>
        a \<noteq> [] \<and> set a \<subseteq> lower_or_digit \<and>
        d \<noteq> [] \<and> set d \<subseteq> set ''0123456789'' \<and> x \<noteq> CHR 0x0A)"
proof
  assume "isXbrlFileMatch fileName"
  then obtain p m q where "fileName = p @ m @ q" and "m \<in> lang xbrl_pattern"
    unfolding isXbrlFileMatch_def regexp_MatchString_lang by blast
  then obtain a d x where "fileName = p @ (a @ ''-'' @ d @ x # ''xml'') @ q"
    and "a \<noteq> []" "set a \<subseteq> lower_or_digit" "d \<noteq> []"
    "set d \<subseteq> set ''0123456789''" "x \<noteq> CHR 0x0A"
    unfolding lang_xbrl_pattern by blast
  moreover from this have "fileName = p @ a @ ''-'' @ d @ x # ''xml'' @ q"
    by simp
  ultimately show "\<exists>p a d x q. fileName = p @ a @ ''-'' @ d @ x # ''xml'' @ q \<and>
        a \<noteq> [] \<and> set a \<subseteq> lower_or_digit \<and>
        d \<noteq> [] \<and> set d \<subseteq> set ''0123456789'' \<and> x \<noteq> CHR 0x0A"
    by blast
next
  assume "\<exists>p a d x q. fileName = p @ a @ ''-'' @ d @ x # ''xml'' @ q \<and>
        a \<noteq> [] \<and> set a \<subseteq> lower_or_digit \<and>
        d \<noteq> [] \<and> set d \<subseteq> set ''0123456789'' \<and> x \<noteq> CHR 0x0A"
  then obtain p a d x q where name: "fileName = p @ (a @ ''-'' @ d @ x # ''xml'') @ q"
    and "a \<noteq> []" "set a \<subseteq> lower_or_digit" "d \<noteq> []"
    "set d \<subseteq> set ''0123456789''" "x \<noteq> CHR 0x0A"
    by auto
  then have "a @ ''-'' @ d @ x # ''xml'' \<in> lang xbrl_pattern"
    unfolding lang_xbrl_pattern by blast
  with name show "isXbrlFileMatch fileName"
    unfolding isXbrlFileMatch_def regexp_MatchString_lang by blast
qed

text \<open>Every name of the shape the specification gives is accepted.\<close>

lemma isXbrlFileMatch_instance_name:
  assumes "a \<noteq> []" and "set a \<subseteq> lower_or_digit"
    and "d \<noteq> []" and "set d \<subseteq> set ''0123456789''"
  shows "isXbrlFileMatch (a @ ''-'' @ d @ ''.xml'')"
proof -
  have "a @ ''-'' @ d @ ''.xml'' = [] @ a @ ''-'' @ d @ CHR ''.'' # ''xml'' @ []"
    by simp
  moreover have "CHR ''.'' \<noteq> CHR 0x0A"
    by simp
  ultimately show ?thesis
    unfolding isXbrlFileMatch_iff using assms by blast
qed

lemma isXbrlFileMatch_examples:
  "isXbrlFileMatch ''acme-20131231.xml''"
  "\<not> isXbrlFileMatch ''acme-20131231.xsd''"
  "\<not> isXbrlFileMatch ''acme-20131231_lab.xml''"
  "\<not> isXbrlFileMatch ''ACME-20131231.xml''"
  by (simp_all add: isXbrlFileMatch_def xbrl_pattern_def)

text \<open>
  Claim C5 says that only an entry named by lowercase letters or digits, a dash, digits
  and a literal \<open>.xml\<close> is ever selected. The code's pattern has an unescaped dot, which
  stands for any character, and is matched anywhere inside the name. In the archive below
  the text file \<open>notes-2013_xml.txt\<close> comes first: it is accepted, stored as the
  instance document and persisted, and the real instance document behind it is never looked at.
\<close>

theorem entry_of_other_shape_is_selected:
  "getXbrlFromZip
     (sim_env GetErr
        (Some [\<lparr>ze_Name = ''notes-2013_xml.txt'', ze_Open = Some ''see the filing''\<rparr>,
               \<lparr>ze_Name = ''acme-20131231.xml'', ze_Open = Some ''<xbrl/>''\<rparr>]))
     ''/tmp/CIK_0000012345/pkg.zip'' ''CIK_0000012345'' ''Y2014Q1FT10-K''
     \<lparr>rf_CIK = 12345, rf_Year = 2014, rf_Quarter = 1, rf_FormType = ''10-K'',
      rf_Filepath = [], rf_Parsed = False\<rparr>
     \<lparr>world = [], trace = []\<rparr> =
   Inr \<lparr>world = [(''CIK_0000012345'', ''Y2014Q1FT10-K'', ''see the filing'')],
        trace =
          [OpenZip ''/tmp/CIK_0000012345/pkg.zip'',
           Log (InfoFoundZipped ''notes-2013_xml.txt''),
           StoreFile ''CIK_0000012345'' ''Y2014Q1FT10-K'' ''see the filing'',
           InsertUpdateReportFile
             \<lparr>rf_CIK = 12345, rf_Year = 2014, rf_Quarter = 1, rf_FormType = ''10-K'',
              rf_Filepath = ''/tmp/CIK_0000012345/Y2014Q1FT10-K'', rf_Parsed = False\<rparr>]\<rparr>"
  by (simp add: scraper_defs)


section \<open>Records that are already in the store\<close>

text \<open>
  Claim C6. For every valid index record (at least five fields, a CIK that parses) whose
  bucket and key the store already maps to a non-empty path, the record is skipped: the
  company is upserted, the record and the skip are logged, and nothing else happens (no
  GET, no file stored, no report file, the world unchanged). \<open>GetXbrl\<close>, the download
  path, is entered exactly when the store returns the empty path.
\<close>

theorem cached_record_is_skipped:
  assumes "strings_Split lineStr CHR ''|'' =
             cik # companyName # formType # dateFiled # filename # extra"
    and "strconv_Atoi cik = (cikInt, False)"
  shows "(ts_GetFilePath env (world st) (getBucket cik) (getKey formType year quarter) \<noteq> [] \<longrightarrow>
            parseRecord env year quarter lineStr st =
              Inr (st\<lparr>trace := trace st @
                     [InsertUpdateCompany \<lparr>c_CIK = cikInt, c_Name = companyName\<rparr>,
                      Log (InfoRecord cik companyName formType dateFiled filename),
                      Log (InfoSkip filename
                             (ts_GetFilePath env (world st) (getBucket cik)
                                (getKey formType year quarter)))]\<rparr>)) \<and>
         (ts_GetFilePath env (world st) (getBucket cik) (getKey formType year quarter) = [] \<longrightarrow>
            parseRecord env year quarter lineStr st =
              GetXbrl env filename (getBucket cik) (getKey formType year quarter)
                \<lparr>rf_CIK = cikInt, rf_Year = year, rf_Quarter = quarter,
                 rf_FormType = formType, rf_Filepath = [], rf_Parsed = False\<rparr>
                (st\<lparr>trace := trace st @
                     [InsertUpdateCompany \<lparr>c_CIK = cikInt, c_Name = companyName\<rparr>,
                      Log (InfoRecord cik companyName formType dateFiled filename)]\<rparr>))"
  using assms by (simp add: parseRecord_def emit_def Let_def)

theorem cached_record_is_skipped_witness:
  "parseRecord (sim_env (Resp 200 ''PK'') None) 2020 1
     ''0000012345|Acme Corp|10-K|2020-03-01|edgar/data/12345/0000012345-20-000012.txt''
     \<lparr>world = [(''CIK_0000012345'', ''Y2020Q1FT10-K'', ''<xbrl/>'')], trace = []\<rparr> =
   Inr \<lparr>world = [(''CIK_0000012345'', ''Y2020Q1FT10-K'', ''<xbrl/>'')],
        trace =
          [InsertUpdateCompany \<lparr>c_CIK = 12345, c_Name = ''Acme Corp''\<rparr>,
           Log (InfoRecord ''0000012345'' ''Acme Corp'' ''10-K'' ''2020-03-01''
                  ''edgar/data/12345/0000012345-20-000012.txt''),
           Log (InfoSkip ''edgar/data/12345/0000012345-20-000012.txt''
                  ''/tmp/CIK_0000012345/Y2020Q1FT10-K'')]\<rparr>"
  using cached_record_is_skipped
    [where lineStr = "''0000012345|Acme Corp|10-K|2020-03-01|edgar/data/12345/0000012345-20-000012.txt''"
       and cik = "''0000012345''" and companyName = "''Acme Corp''" and formType = "''10-K''"
       and dateFiled = "''2020-03-01''"
       and filename = "''edgar/data/12345/0000012345-20-000012.txt''" and extra = "[]"
       and cikInt = 12345 and env = "sim_env (Resp 200 ''PK'') None" and year = 2020
       and quarter = 1
       and st = "\<lparr>world = [(''CIK_0000012345'', ''Y2020Q1FT10-K'', ''<xbrl/>'')], trace = []\<rparr>"]
  by (simp add: go_lib_defs getBucket_def getKey_def sim_env_def)

section \<open>The batch consumer\<close>

text \<open>
  Claim C8. For every report file that the consumer runs through normalization (its path
  names a 10-Q or a 10-K), whatever report the parser returns and whether \<open>IsValid\<close>
  accepts it or not: the parser is called once, then the file is persisted with
  \<open>Parsed = true\<close>. The outcome of \<open>IsValid\<close> only decides which of the two counters
  grows by one.
\<close>

theorem normalised_file_is_marked_parsed:
  assumes "strings_Contains (rf_Filepath rf) ''10-Q'' \<or>
           strings_Contains (rf_Filepath rf) ''10-K'' \<or>
           strings_Contains (rf_Filepath rf) ''10-K_A'' \<or>
           strings_Contains (rf_Filepath rf) ''10-Q_A''"
    and "raw = \<lparr>frr_CIK = rf_CIK rf, frr_Year = rf_Year rf, frr_Quarter = rf_Quarter rf,
                RawFields = Map.empty\<rparr>"
    and "parser_Parse env (db st) (rf_Filepath rf) raw = (fr, d1)"
  shows "consumeFile env rf st =
           \<lparr>db = persist_InsertUpdateReportFile env d1 (rf\<lparr>rf_Parsed := True\<rparr>),
            calls = calls st @
              [CallParser (rf_Filepath rf) raw,
               CallInsertUpdateReportFile (rf\<lparr>rf_Parsed := True\<rparr>)],
            numValid = (if IsValid fr = None then numValid st + 1 else numValid st),
            numInvalid = (if IsValid fr = None then numInvalid st else numInvalid st + 1)\<rparr>"
  using assms by (auto simp add: consumeFile_def Let_def)

theorem normalised_file_is_marked_parsed_witness:
  "consumeFile
     (sim_consumer_env
        \<lparr>fr_CIK = 12345, fr_Year = 2020, fr_Quarter = 1, Revenue = 10,
         OperatingExpense = 7, NetIncome = 3, CurrentAssets = 5, TotalAssets = 9,
         CurrentLiabilities = 2, TotalLiabilities = 4, OperatingCash = 6,
         CapitalExpenditures = 0\<rparr>)
     \<lparr>rf_CIK = 12345, rf_Year = 2020, rf_Quarter = 1, rf_FormType = ''10-K'',
      rf_Filepath = ''/tmp/CIK_0000012345/Y2020Q1FT10-K'', rf_Parsed = False\<rparr>
     \<lparr>db = [], calls = [], numValid = 0, numInvalid = 0\<rparr> =
   \<lparr>db = [\<lparr>rf_CIK = 12345, rf_Year = 2020, rf_Quarter = 1, rf_FormType = ''10-K'',
           rf_Filepath = ''/tmp/CIK_0000012345/Y2020Q1FT10-K'', rf_Parsed = True\<rparr>],
    calls =
      [CallParser ''/tmp/CIK_0000012345/Y2020Q1FT10-K''
         \<lparr>frr_CIK = 12345, frr_Year = 2020, frr_Quarter = 1, RawFields = Map.empty\<rparr>,
       CallInsertUpdateReportFile
         \<lparr>rf_CIK = 12345, rf_Year = 2020, rf_Quarter = 1, rf_FormType = ''10-K'',
          rf_Filepath = ''/tmp/CIK_0000012345/Y2020Q1FT10-K'', rf_Parsed = True\<rparr>],
    numValid = 0, numInvalid = 1\<rparr>"
  using normalised_file_is_marked_parsed
    [where rf = "\<lparr>rf_CIK = 12345, rf_Year = 2020, rf_Quarter = 1, rf_FormType = ''10-K'',
                   rf_Filepath = ''/tmp/CIK_0000012345/Y2020Q1FT10-K'', rf_Parsed = False\<rparr>"
       and raw = "\<lparr>frr_CIK = 12345, frr_Year = 2020, frr_Quarter = 1, RawFields = Map.empty\<rparr>"
       and env = "sim_consumer_env
                    \<lparr>fr_CIK = 12345, fr_Year = 2020, fr_Quarter = 1, Revenue = 10,
                     OperatingExpense = 7, NetIncome = 3, CurrentAssets = 5, TotalAssets = 9,
                     CurrentLiabilities = 2, TotalLiabilities = 4, OperatingCash = 6,
                     CapitalExpenditures = 0\<rparr>"
       and st = "\<lparr>db = [], calls = [], numValid = 0, numInvalid = 0\<rparr>"
       and fr = "\<lparr>fr_CIK = 12345, fr_Year = 2020, fr_Quarter = 1, Revenue = 10,
                   OperatingExpense = 7, NetIncome = 3, CurrentAssets = 5, TotalAssets = 9,
                   CurrentLiabilities = 2, TotalLiabilities = 4, OperatingCash = 6,
                   CapitalExpenditures = 0\<rparr>"
       and ?d1.0 = "[]"]
  by (simp add: sim_consumer_env_def IsValid_def missingFields_def)

text \<open>
  Claim C10. For every report file whose path contains none of \<open>10-Q\<close>, \<open>10-K\<close>,
  \<open>10-K_A\<close> and \<open>10-Q_A\<close>, the consumer persists it with \<open>Parsed = true\<close> and does
  nothing else: the parser is not called and neither counter changes.
\<close>

theorem other_form_is_marked_parsed_unparsed:
  assumes "\<not> strings_Contains (rf_Filepath rf) ''10-Q''"
    and "\<not> strings_Contains (rf_Filepath rf) ''10-K''"
    and "\<not> strings_Contains (rf_Filepath rf) ''10-K_A''"
    and "\<not> strings_Contains (rf_Filepath rf) ''10-Q_A''"
  shows "consumeFile env rf st =
           st\<lparr>db := persist_InsertUpdateReportFile env (db st) (rf\<lparr>rf_Parsed := True\<rparr>),
              calls := calls st @ [CallInsertUpdateReportFile (rf\<lparr>rf_Parsed := True\<rparr>)]\<rparr>"
  using assms by (simp add: consumeFile_def Let_def)

theorem other_form_is_marked_parsed_unparsed_witness:
  "consumeFile
     (sim_consumer_env
        \<lparr>fr_CIK = 0, fr_Year = 0, fr_Quarter = 0, Revenue = 0, OperatingExpense = 0,
         NetIncome = 0, CurrentAssets = 0, TotalAssets = 0, CurrentLiabilities = 0,
         TotalLiabilities = 0, OperatingCash = 0, CapitalExpenditures = 0\<rparr>)
     \<lparr>rf_CIK = 12345, rf_Year = 2020, rf_Quarter = 1, rf_FormType = ''8-K'',
      rf_Filepath = ''/tmp/CIK_0000012345/Y2020Q1FT8-K'', rf_Parsed = False\<rparr>
     \<lparr>db = [], calls = [], numValid = 0, numInvalid = 0\<rparr> =
   \<lparr>db = [\<lparr>rf_CIK = 12345, rf_Year = 2020, rf_Quarter = 1, rf_FormType = ''8-K'',
           rf_Filepath = ''/tmp/CIK_0000012345/Y2020Q1FT8-K'', rf_Parsed = True\<rparr>],
    calls =
      [CallInsertUpdateReportFile
         \<lparr>rf_CIK = 12345, rf_Year = 2020, rf_Quarter = 1, rf_FormType = ''8-K'',
          rf_Filepath = ''/tmp/CIK_0000012345/Y2020Q1FT8-K'', rf_Parsed = True\<rparr>],
    numValid = 0, numInvalid = 0\<rparr>"
  using other_form_is_marked_parsed_unparsed
    [where rf = "\<lparr>rf_CIK = 12345, rf_Year = 2020, rf_Quarter = 1, rf_FormType = ''8-K'',
                   rf_Filepath = ''/tmp/CIK_0000012345/Y2020Q1FT8-K'', rf_Parsed = False\<rparr>"
       and env = "sim_consumer_env
                    \<lparr>fr_CIK = 0, fr_Year = 0, fr_Quarter = 0, Revenue = 0,
                     OperatingExpense = 0, NetIncome = 0, CurrentAssets = 0, TotalAssets = 0,
                     CurrentLiabilities = 0, TotalLiabilities = 0, OperatingCash = 0,
                     CapitalExpenditures = 0\<rparr>"
       and st = "\<lparr>db = [], calls = [], numValid = 0, numInvalid = 0\<rparr>"]
  by (simp add: sim_consumer_env_def)

text \<open>
  Over a whole batch: every file of the batch is persisted with \<open>Parsed = true\<close>, and
  the two counters together count the files that went to the parser.
\<close>

lemma consumeFile_calls_grow:
  "\<exists>new. calls (consumeFile env rf st) = calls st @ new \<and>
         CallInsertUpdateReportFile (rf\<lparr>rf_Parsed := True\<rparr>) \<in> set new"
  by (auto simp add: consumeFile_def Let_def split: prod.splits)

lemma consumeBatch_keeps_calls:
  "c \<in> set (calls st) \<Longrightarrow> c \<in> set (calls (consumeBatch env batch st))"
proof (induction batch arbitrary: st)
  case Nil
  then show ?case by simp
next
  case (Cons rf batch)
  obtain new where "calls (consumeFile env rf st) = calls st @ new"
    using consumeFile_calls_grow by blast
  with Cons.prems have "c \<in> set (calls (consumeFile env rf st))"
    by simp
  then show ?case
    using Cons.IH by simp
qed

lemma consumeBatch_persists_every_file:
  "rf \<in> set batch \<Longrightarrow>
     CallInsertUpdateReportFile (rf\<lparr>rf_Parsed := True\<rparr>) \<in> set (calls (consumeBatch env batch st))"
proof (induction batch arbitrary: st)
  case Nil
  then show ?case by simp
next
  case (Cons x batch)
  show ?case
  proof (cases "rf = x")
    case True
    obtain new where "calls (consumeFile env x st) = calls st @ new"
      and "CallInsertUpdateReportFile (x\<lparr>rf_Parsed := True\<rparr>) \<in> set new"
      using consumeFile_calls_grow by blast
    then have "CallInsertUpdateReportFile (x\<lparr>rf_Parsed := True\<rparr>)
                 \<in> set (calls (consumeFile env x st))"
      by simp
    then show ?thesis
      using True consumeBatch_keeps_calls by simp
  next
    case False
    with Cons.prems have "rf \<in> set batch" by simp
    then show ?thesis
      using Cons.IH by simp
  qed
qed

text \<open>The outer loop ends on the first empty page.\<close>

lemma mainLoop_empty_page:
  "GetNextUnparsedFiles env (m_db ms) 20 = [] \<Longrightarrow> mainLoop env ms = Some ms"
  by (subst mainLoop.simps) simp


end
